theory Spec2Isabelle
  imports Main "HOL-Library.Word"
begin

section \<open>Detective Quest: rooms, collected clues and the clue-to-suspect table\<close>

text \<open>
  The development embeds \<^verbatim>\<open>algoritmos_avancados.c\<close> (the full game) and the earlier
  room-only explorer of the same repository. A C string is the byte sequence in front of
  its terminator, so it is a \<^typ>\<open>string\<close> that holds no NUL byte; a pointer that may be
  \<^verbatim>\<open>NULL\<close> is an \<^typ>\<open>'a option\<close>, or a datatype with a constructor for the null
  pointer where the pointee is a tree node. Allocation failure (the \<^verbatim>\<open>exit\<close> branches
  after \<^verbatim>\<open>malloc\<close>) is not modelled: memory is taken to be sufficient.
\<close>

subsection \<open>Strings\<close>

text \<open>
  \<^verbatim>\<open>strcmp\<close> compares byte by byte, as \<^verbatim>\<open>unsigned char\<close>, and a proper prefix is
  smaller. The C standard fixes only the sign of the result and the source looks only at
  the sign; the model returns -1, 0 or 1.
\<close>

fun strcmp :: "string \<Rightarrow> string \<Rightarrow> int" where
  "strcmp [] [] = 0"
| "strcmp [] (y # ys) = - 1"
| "strcmp (x # xs) [] = 1"
| "strcmp (x # xs) (y # ys) =
     (if (of_char x :: nat) < of_char y then - 1
      else if (of_char y :: nat) < of_char x then 1
      else strcmp xs ys)"

subsection \<open>The search tree of collected clues\<close>

text \<open>
  \<^verbatim>\<open>NoPista*\<close>: \<open>Nulo\<close> is the null pointer, \<open>No pista esq dir\<close> a node with its three
  fields. Every node is owned by its parent alone, so the pointer structure is a tree.
  A stored text is the copy that \<^verbatim>\<open>strdup_local\<close> makes: the same bytes.
\<close>

datatype NoPista = Nulo | No (pista: string) (esq: NoPista) (dir: NoPista)

fun inserirPista :: "NoPista \<Rightarrow> string option \<Rightarrow> NoPista" where
  "inserirPista raiz None = raiz"
| "inserirPista Nulo (Some p) = No p Nulo Nulo"
| "inserirPista (No q l r) (Some p) =
     (let cmp = strcmp p q in
      if cmp = 0 then No q l r
      else if cmp < 0 then No q (inserirPista l (Some p)) r
      else No q l (inserirPista r (Some p)))"

fun buscaPista :: "NoPista \<Rightarrow> string option \<Rightarrow> int" where
  "buscaPista Nulo p = 0"
| "buscaPista (No q l r) None = 0"
| "buscaPista (No q l r) (Some p) =
     (let cmp = strcmp p q in
      if cmp = 0 then 1
      else if cmp < 0 then buscaPista l (Some p)
      else buscaPista r (Some p))"

text \<open>\<^verbatim>\<open>listarPistas\<close> prints one line per node, in order; the model returns the clue
  texts printed, first line first.\<close>

fun listarPistas :: "NoPista \<Rightarrow> string list" where
  "listarPistas Nulo = []"
| "listarPistas (No q l r) = listarPistas l @ q # listarPistas r"

text \<open>The ordering property of the search tree, stated with the comparison the code uses.\<close>

fun bst :: "NoPista \<Rightarrow> bool" where
  "bst Nulo = True"
| "bst (No q l r) =
     (bst l \<and> bst r
      \<and> (\<forall>x \<in> set (listarPistas l). strcmp x q < 0)
      \<and> (\<forall>x \<in> set (listarPistas r). 0 < strcmp x q))"

subsection \<open>Undefined behaviour as a value\<close>

text \<open>
  The places where the C code has no defined result are branches of the model: the
  remainder of a division by a bucket count of zero, a read or write outside an array,
  the increment of an \<^verbatim>\<open>int\<close> that already holds \<^verbatim>\<open>INT_MAX\<close>, the use of a
  variable that \<^verbatim>\<open>scanf\<close> did not assign, the read of a string whose block has been
  freed, and the read through a pointer that points to no string. A function that can
  reach one returns \<open>fault + 'a\<close>, with \<open>Inl\<close> for the fault.
\<close>

datatype fault =
    DivisaoPorZero
  | ForaDosLimites
  | EstouroDeInt
  | ValorIndeterminado
  | UsoAposLiberar
  | PonteiroInvalido

definition bind_f :: "fault + 'a \<Rightarrow> ('a \<Rightarrow> fault + 'b) \<Rightarrow> fault + 'b" where
  "bind_f m k = (case m of Inl f \<Rightarrow> Inl f | Inr x \<Rightarrow> k x)"

subsection \<open>The hash table from clue to suspect\<close>

text \<open>
  A bucket is a chain of entries linked by \<^verbatim>\<open>prox\<close>: a list of entries, the empty list
  for \<^verbatim>\<open>NULL\<close>. The table has the array of buckets and the bucket count, as the struct
  does (the count is the field \<^verbatim>\<open>size\<close>). \<^verbatim>\<open>unsigned long\<close> and \<^verbatim>\<open>size_t\<close> are
  the 64-bit types of the LP64 platforms that the build line of the source targets.
\<close>

record HashEntry =
  pista :: string
  suspeito :: string

record HashTable =
  buckets :: "HashEntry list list"
  size_ht :: nat

fun hash_djb2_laco :: "64 word \<Rightarrow> string \<Rightarrow> 64 word" where
  "hash_djb2_laco hash [] = hash"
| "hash_djb2_laco hash (c # str) = hash_djb2_laco ((push_bit 5 hash + hash) + of_char c) str"

definition hash_djb2 :: "string \<Rightarrow> 64 word" where
  "hash_djb2 str = hash_djb2_laco 5381 str"

definition criarHash :: "nat \<Rightarrow> HashTable" where
  "criarHash n = \<lparr>buckets = replicate n [], size_ht = n\<rparr>"

fun encontrarSuspeito_laco :: "HashEntry list \<Rightarrow> string \<Rightarrow> string option" where
  "encontrarSuspeito_laco [] p = None"
| "encontrarSuspeito_laco (cur # prox) p =
     (if strcmp (pista cur) p = 0 then Some (suspeito cur)
      else encontrarSuspeito_laco prox p)"

text \<open>\<^verbatim>\<open>encontrarSuspeito\<close> returns the pointer to the suspect stored in the entry; its
  callers in this program read the string at once, so the result is the bytes there.\<close>

fun encontrarSuspeito :: "HashTable option \<Rightarrow> string option \<Rightarrow> fault + string option" where
  "encontrarSuspeito None p = Inr None"
| "encontrarSuspeito (Some ht) None = Inr None"
| "encontrarSuspeito (Some ht) (Some p) =
     (if size_ht ht = 0 then Inl DivisaoPorZero
      else
        let h = unat (hash_djb2 p) mod size_ht ht in
        if length (buckets ht) \<le> h then Inl ForaDosLimites
        else Inr (encontrarSuspeito_laco (buckets ht ! h) p))"

text \<open>
  \<^verbatim>\<open>inserirNaHash\<close> frees the stored suspect of the entry it overwrites before it copies
  the new one (\<^verbatim>\<open>free(cur->suspeito)\<close>, then \<^verbatim>\<open>strdup_local(suspeito)\<close>), so the result
  depends on where the argument \<^verbatim>\<open>suspeito\<close> points. A pointer to a suspect text is
  \<^item> \<open>Fora s\<close>: a string \<open>s\<close> anywhere outside the suspect blocks that a get can return
    (a literal, a buffer of the caller, a clue text);
  \<^item> \<open>Guardado k off\<close>: the pointer that \<^verbatim>\<open>encontrarSuspeito\<close> returns for the clue
    \<open>k\<close>, moved \<open>off\<close> bytes into the string. It points into the suspect block of the
    first entry for \<open>k\<close> in the bucket of \<open>k\<close>.

  The argument \<^verbatim>\<open>pista\<close> is read only before the \<^verbatim>\<open>free\<close>, and the block freed is
  never a clue text, so for it the bytes are all that matters.
\<close>

datatype texto = Fora string | Guardado string nat

text \<open>The suspect block that a get returns for a clue, if there is one.\<close>

definition guardado :: "HashTable \<Rightarrow> string \<Rightarrow> string option" where
  "guardado ht k =
     (if size_ht ht = 0 then None
      else
        let h = unat (hash_djb2 k) mod size_ht ht in
        if length (buckets ht) \<le> h then None
        else encontrarSuspeito_laco (buckets ht ! h) k)"

text \<open>Reading the C string at a pointer while every block of the table is live.\<close>

definition ler_texto :: "HashTable \<Rightarrow> texto \<Rightarrow> fault + string" where
  "ler_texto ht sp =
     (case sp of
        Fora s \<Rightarrow> Inr s
      | Guardado k off \<Rightarrow>
          (case guardado ht k of
             None \<Rightarrow> Inl PonteiroInvalido
           | Some s \<Rightarrow> if off \<le> length s then Inr (drop off s) else Inl PonteiroInvalido))"

text \<open>
  \<^verbatim>\<open>strdup_local(suspeito)\<close> right after \<^verbatim>\<open>free(cur->suspeito)\<close>, where \<open>cur\<close> is the
  first entry for the clue \<open>p\<close> in the bucket of \<open>p\<close>. The block freed is the one that a
  get returns for \<open>p\<close>; a pointer \<open>Guardado k off\<close> points into it exactly when \<open>k = p\<close>,
  since the entries found for different clue texts are different entries.
\<close>

definition ler_apos_liberar :: "HashTable \<Rightarrow> string \<Rightarrow> texto \<Rightarrow> fault + string" where
  "ler_apos_liberar ht p sp =
     (case sp of
        Fora s \<Rightarrow> Inr s
      | Guardado k off \<Rightarrow> if k = p then Inl UsoAposLiberar else ler_texto ht sp)"

text \<open>The search loop of \<^verbatim>\<open>inserirNaHash\<close> on a chain of the table \<open>ht\<close>: the chain with
  the suspect of the first entry for the clue replaced, or \<open>None\<close> when the loop ends
  without a match.\<close>

fun inserirNaHash_laco :: "HashTable \<Rightarrow> HashEntry list \<Rightarrow> string \<Rightarrow> texto
    \<Rightarrow> fault + HashEntry list option" where
  "inserirNaHash_laco ht [] p sp = Inr None"
| "inserirNaHash_laco ht (cur # prox) p sp =
     (if strcmp (pista cur) p = 0 then
        (case ler_apos_liberar ht p sp of
           Inl f \<Rightarrow> Inl f
         | Inr s \<Rightarrow> Inr (Some (cur\<lparr>suspeito := s\<rparr> # prox)))
      else
        (case inserirNaHash_laco ht prox p sp of
           Inl f \<Rightarrow> Inl f
         | Inr None \<Rightarrow> Inr None
         | Inr (Some prox') \<Rightarrow> Inr (Some (cur # prox'))))"

text \<open>The result is the table behind \<^verbatim>\<open>ht\<close> after the call (\<open>None\<close> when \<^verbatim>\<open>ht\<close>
  is \<^verbatim>\<open>NULL\<close>).\<close>

fun inserirNaHash :: "HashTable option \<Rightarrow> string option \<Rightarrow> texto option
    \<Rightarrow> fault + HashTable option" where
  "inserirNaHash None p sp = Inr None"
| "inserirNaHash (Some ht) None sp = Inr (Some ht)"
| "inserirNaHash (Some ht) (Some p) None = Inr (Some ht)"
| "inserirNaHash (Some ht) (Some p) (Some sp) =
     (if size_ht ht = 0 then Inl DivisaoPorZero
      else
        let h = unat (hash_djb2 p) mod size_ht ht in
        if length (buckets ht) \<le> h then Inl ForaDosLimites
        else
          (case inserirNaHash_laco ht (buckets ht ! h) p sp of
             Inl f \<Rightarrow> Inl f
           | Inr (Some chain) \<Rightarrow> Inr (Some (ht\<lparr>buckets := (buckets ht)[h := chain]\<rparr>))
           | Inr None \<Rightarrow>
               (case ler_texto ht sp of
                  Inl f \<Rightarrow> Inl f
                | Inr s \<Rightarrow>
                    Inr (Some (ht\<lparr>buckets :=
                      (buckets ht)[h := \<lparr>pista = p, suspeito = s\<rparr> # buckets ht ! h]\<rparr>)))))"

subsection \<open>Rooms and the room-to-clue rules\<close>

text \<open>\<^verbatim>\<open>Sala*\<close>: \<open>SalaNula\<close> is the null pointer, \<open>Sala nome esq dir\<close> a room. The
  names with letters outside ASCII are the UTF-8 bytes of the source file.\<close>

datatype Sala = SalaNula | Sala string Sala Sala

definition criarSala :: "string \<Rightarrow> Sala" where
  "criarSala nome = Sala nome SalaNula SalaNula"

abbreviation Porao :: string where
  "Porao \<equiv> ''Por'' @ [CHR 0xC3, CHR 0xA3] @ ''o''"

abbreviation Escritorio :: string where
  "Escritorio \<equiv> ''Escrit'' @ [CHR 0xC3, CHR 0xB3] @ ''rio''"

abbreviation nota_de_divida :: string where
  "nota_de_divida \<equiv> ''nota de d'' @ [CHR 0xC3, CHR 0xAD] @ ''vida''"

definition getPistaParaSala :: "string option \<Rightarrow> string option" where
  "getPistaParaSala nomeSala =
     (case nomeSala of
        None \<Rightarrow> None
      | Some n \<Rightarrow>
          if strcmp n ''Hall de Entrada'' = 0 then Some ''pegada molhada''
          else if strcmp n ''Sala de Estar'' = 0 then Some ''fio de cabelo''
          else if strcmp n ''Biblioteca'' = 0 then Some ''bilhete rasgado''
          else if strcmp n ''Jardim de Inverno'' = 0 then Some ''marca de luva''
          else if strcmp n ''Cozinha'' = 0 then Some ''cheiro de queimado''
          else if strcmp n ''Despensa'' = 0 then Some ''chave estranha''
          else if strcmp n Porao = 0 then Some ''mancha de tinta''
          else if strcmp n ''Quarto Principal'' = 0 then Some ''anel riscado''
          else if strcmp n Escritorio = 0 then Some nota_de_divida
          else None)"

subsection \<open>Console input and output\<close>

text \<open>
  Standard input is the byte stream still to be read; standard output is the sequence of
  messages printed, one constructor for each \<^verbatim>\<open>printf\<close> of the source, with the
  values of its arguments.
\<close>

datatype evento =
    SalaAtual string
  | PistaEncontrada string
  | PistaAponta string
  | PistaSemSuspeito
  | PistaJaColetada
  | SalaSemPista
  | NoFolha
  | ParaOnde
  | OpcaoEsquerda string
  | OpcaoDireita string
  | OpcaoSair
  | Escolha
  | EntradaInvalida
  | SemCaminhoEsquerda
  | SemCaminhoDireita
  | Saindo
  | OpcaoInvalida
  | Titulo
  | BemVindo
  | FaseFinal
  | NenhumaPistaColetada
  | PistasColetadas
  | LinhaPista string
  | PedirAcusacao
  | ErroAoLer
  | NenhumSuspeitoInformado
  | VoceAcusou string
  | NumeroDePistas string int
  | AcusacaoSustentada string int
  | AcusacaoInsuficiente int
  | Obrigado

text \<open>\<^verbatim>\<open>isspace\<close> in the C locale: space, and the bytes 9 to 13.\<close>

definition isspace :: "char \<Rightarrow> bool" where
  "isspace c = (c = CHR '' '' \<or> (9 \<le> (of_char c :: nat) \<and> (of_char c :: nat) \<le> 13))"

text \<open>\<^verbatim>\<open>scanf(" %c", &op)\<close>: skips white space, then reads one byte; \<open>None\<close> at the
  end of the input, where the call does not return 1.\<close>

definition scanf_char :: "string \<Rightarrow> (char \<times> string) option" where
  "scanf_char inp = (case dropWhile isspace inp of [] \<Rightarrow> None | c # rest \<Rightarrow> Some (c, rest))"

text \<open>\<^verbatim>\<open>while ((c = getchar()) != '\n' && c != EOF) {}\<close>: the input after the rest of
  the line.\<close>

definition limpar_linha :: "string \<Rightarrow> string" where
  "limpar_linha inp = (case dropWhile (\<lambda>c. c \<noteq> CHR 0x0A) inp of [] \<Rightarrow> [] | c # rest \<Rightarrow> rest)"

subsection \<open>Exploration\<close>

text \<open>The state that \<^verbatim>\<open>explorarSalas\<close> changes: the tree behind \<^verbatim>\<open>raizPistas\<close> and
  the console.\<close>

record estado =
  raizPistas :: NoPista
  stdin :: string
  stdout :: "evento list"

definition printf :: "evento list \<Rightarrow> estado \<Rightarrow> estado" where
  "printf es st = st\<lparr>stdout := stdout st @ es\<rparr>"

text \<open>The clue step of one visit (the first part of the loop body): look the clue of the
  room up, collect it when it is new and report the suspect it points to.\<close>

definition coletar :: "string \<Rightarrow> HashTable option \<Rightarrow> estado \<Rightarrow> fault + estado" where
  "coletar nome ht st =
     (case getPistaParaSala (Some nome) of
        Some p \<Rightarrow>
          let st1 = printf [PistaEncontrada p] st in
          if buscaPista (raizPistas st1) (Some p) = 0 then
            let st2 = st1\<lparr>raizPistas := inserirPista (raizPistas st1) (Some p)\<rparr> in
            bind_f (encontrarSuspeito ht (Some p)) (\<lambda>s.
              case s of
                Some nome_s \<Rightarrow> Inr (printf [PistaAponta nome_s] st2)
              | None \<Rightarrow> Inr (printf [PistaSemSuspeito] st2))
          else Inr (printf [PistaJaColetada] st1)
      | None \<Rightarrow> Inr (printf [SalaSemPista] st))"

text \<open>The leaf notice and the menu, which lists the directions that have a room.\<close>

fun menu :: "Sala \<Rightarrow> evento list" where
  "menu SalaNula = []"
| "menu (Sala nome e d) =
     (if e = SalaNula \<and> d = SalaNula then [NoFolha] else [])
     @ [ParaOnde]
     @ (case e of SalaNula \<Rightarrow> [] | Sala ne _ _ \<Rightarrow> [OpcaoEsquerda ne])
     @ (case d of SalaNula \<Rightarrow> [] | Sala nd _ _ \<Rightarrow> [OpcaoDireita nd])
     @ [OpcaoSair, Escolha]"

text \<open>How one pass through the loop body ends: the loop goes on at a room, or the
  function returns.\<close>

datatype controle = Continua Sala | Retorna

text \<open>Reading the choice and acting on it (the last part of the loop body).\<close>

fun navegar :: "Sala \<Rightarrow> estado \<Rightarrow> controle \<times> estado" where
  "navegar SalaNula st = (Retorna, st)"
| "navegar (Sala nome e d) st =
     (case scanf_char (stdin st) of
        None \<Rightarrow> (Retorna, printf [EntradaInvalida] (st\<lparr>stdin := limpar_linha []\<rparr>))
      | Some (op, rest) \<Rightarrow>
          let st1 = st\<lparr>stdin := limpar_linha rest\<rparr> in
          if op = CHR ''e'' \<or> op = CHR ''E'' then
            (if e \<noteq> SalaNula then (Continua e, st1)
             else (Continua (Sala nome e d), printf [SemCaminhoEsquerda] st1))
          else if op = CHR ''d'' \<or> op = CHR ''D'' then
            (if d \<noteq> SalaNula then (Continua d, st1)
             else (Continua (Sala nome e d), printf [SemCaminhoDireita] st1))
          else if op = CHR ''s'' \<or> op = CHR ''S'' then (Retorna, printf [Saindo] st1)
          else (Continua (Sala nome e d), printf [OpcaoInvalida] st1))"

text \<open>One pass through the body of the \<^verbatim>\<open>while\<close> loop at a room.\<close>

fun explorarSalas_corpo :: "Sala \<Rightarrow> HashTable option \<Rightarrow> estado \<Rightarrow> fault + controle \<times> estado" where
  "explorarSalas_corpo SalaNula ht st = Inr (Retorna, st)"
| "explorarSalas_corpo (Sala nome e d) ht st =
     bind_f (coletar nome ht (printf [SalaAtual nome] st)) (\<lambda>st1.
       Inr (navegar (Sala nome e d) (printf (menu (Sala nome e d)) st1)))"

function explorarSalas :: "Sala \<Rightarrow> HashTable option \<Rightarrow> estado \<Rightarrow> fault + estado" where
  "explorarSalas SalaNula ht st = Inr st"
| "explorarSalas (Sala nome e d) ht st =
     (case explorarSalas_corpo (Sala nome e d) ht st of
        Inl f \<Rightarrow> Inl f
      | Inr (Retorna, st') \<Rightarrow> Inr st'
      | Inr (Continua node, st') \<Rightarrow> explorarSalas node ht st')"
  by pat_completeness auto

termination explorarSalas
proof (relation "measure (\<lambda>(node, ht, st). length (stdin st))")
  show "wf (measure (\<lambda>(node, ht, st). length (stdin st)))" by simp
next
  fix nome e d ht st x2 x1 x2a node
  assume a: "explorarSalas_corpo (Sala nome e d) ht st = Inr x2" "(x1, x2a) = x2" "x1 = Continua node"
  have limpar: "length (limpar_linha inp) \<le> length inp" for inp
    using length_dropWhile_le [of "\<lambda>c. c \<noteq> CHR 0x0A" inp]
    by (auto simp: limpar_linha_def split: list.splits)
  have ler: "length rest < length inp" if "scanf_char inp = Some (c, rest)" for inp c rest
    using that length_dropWhile_le [of isspace inp]
    by (auto simp: scanf_char_def split: list.splits)
  have col: "stdin s1 = stdin s0" if "coletar n ht s0 = Inr s1" for n s0 s1
    using that
    by (auto simp: coletar_def bind_f_def printf_def Let_def split: option.splits if_splits sum.splits)
  have nav: "length (stdin s1) < length (stdin s0)" if "navegar r s0 = (Continua r', s1)" for r r' s0 s1
  proof (cases r)
    case SalaNula
    with that show ?thesis by simp
  next
    case (Sala n l r)
    show ?thesis
    proof (cases "scanf_char (stdin s0)")
      case None
      with that Sala show ?thesis by simp
    next
      case (Some cr)
      obtain c rest where cr: "cr = (c, rest)" by (cases cr)
      from ler Some cr have "length rest < length (stdin s0)" by simp
      with limpar [of rest] have "length (limpar_linha rest) < length (stdin s0)" by linarith
      moreover from that Sala Some cr have "stdin s1 = limpar_linha rest"
        by (auto simp: printf_def Let_def split: if_splits)
      ultimately show ?thesis by simp
    qed
  qed
  from a obtain s1 where c: "coletar nome ht (printf [SalaAtual nome] st) = Inr s1"
    and n: "navegar (Sala nome e d) (printf (menu (Sala nome e d)) s1) = (Continua node, x2a)"
    by (auto simp: bind_f_def split: sum.splits)
  from col [OF c] have "stdin s1 = stdin st" by (simp add: printf_def)
  moreover from nav [OF n] have "length (stdin x2a) < length (stdin s1)" by (simp add: printf_def)
  ultimately show "((node, ht, x2a), (Sala nome e d, ht, st)) \<in> measure (\<lambda>(node, ht, st). length (stdin st))"
    by simp
qed

subsection \<open>Judging the accusation\<close>

text \<open>\<^verbatim>\<open>int\<close> has 32 bits; \<^verbatim>\<open>(*contador)++\<close> at \<^verbatim>\<open>INT_MAX\<close> is undefined.\<close>

definition INT_MAX :: int where
  "INT_MAX = 2147483647"

definition incrementar :: "int \<Rightarrow> fault + int" where
  "incrementar contador = (if contador = INT_MAX then Inl EstouroDeInt else Inr (contador + 1))"

text \<open>The counter behind the pointer \<^verbatim>\<open>contador\<close> is passed in and returned.\<close>

fun auxiliarContagem :: "NoPista \<Rightarrow> HashTable option \<Rightarrow> string \<Rightarrow> int \<Rightarrow> fault + int" where
  "auxiliarContagem Nulo ht acusado contador = Inr contador"
| "auxiliarContagem (No p l r) ht acusado contador =
     (case auxiliarContagem l ht acusado contador of
        Inl f \<Rightarrow> Inl f
      | Inr c1 \<Rightarrow>
          (case encontrarSuspeito ht (Some p) of
             Inl f \<Rightarrow> Inl f
           | Inr s \<Rightarrow>
               (case (case s of
                        None \<Rightarrow> Inr c1
                      | Some nome_s \<Rightarrow>
                          if strcmp nome_s acusado = 0 then incrementar c1 else Inr c1) of
                  Inl f \<Rightarrow> Inl f
                | Inr c2 \<Rightarrow> auxiliarContagem r ht acusado c2)))"

fun verificarSuspeitoFinal :: "NoPista \<Rightarrow> HashTable option \<Rightarrow> string option \<Rightarrow> fault + int" where
  "verificarSuspeitoFinal raiz ht None = Inr 0"
| "verificarSuspeitoFinal Nulo ht (Some acusado) = Inr 0"
| "verificarSuspeitoFinal (No p l r) ht (Some acusado) =
     auxiliarContagem (No p l r) ht acusado 0"

text \<open>The verdict that \<^verbatim>\<open>main\<close> prints for a count.\<close>

definition veredito :: "string \<Rightarrow> int \<Rightarrow> evento list" where
  "veredito buf contador =
     (if contador \<ge> 2 then [AcusacaoSustentada buf contador]
      else [AcusacaoInsuficiente contador])"

subsection \<open>The program\<close>

text \<open>The fixed map of the mansion, as \<^verbatim>\<open>main\<close> wires it.\<close>

definition mansao :: Sala where
  "mansao =
     Sala ''Hall de Entrada''
       (Sala ''Sala de Estar''
          (Sala ''Biblioteca'' (criarSala ''Quarto Principal'') SalaNula)
          (criarSala ''Jardim de Inverno''))
       (Sala ''Cozinha''
          (Sala ''Despensa'' (criarSala Escritorio) SalaNula)
          (criarSala Porao))"

text \<open>The associations that \<^verbatim>\<open>main\<close> puts into the table, in the order of its calls.\<close>

definition associacoes :: "(string \<times> string) list" where
  "associacoes =
     [(''pegada molhada'', ''Sr. Avelar''),
      (''fio de cabelo'', ''Sra. Beatriz''),
      (''marca de luva'', ''Sr. Avelar''),
      (''bilhete rasgado'', ''Srta. Clara''),
      (''chave estranha'', ''Sra. Beatriz''),
      (''mancha de tinta'', ''Sr. Avelar''),
      (''cheiro de queimado'', ''Sr. Dourado''),
      (''anel riscado'', ''Srta. Clara''),
      (nota_de_divida, ''Sr. Dourado'')]"

text \<open>A run of calls of \<^verbatim>\<open>inserirNaHash\<close> on one table, first pair first, with
  clue and suspect texts that lie outside the table, as the literals of \<^verbatim>\<open>main\<close> do.\<close>

fun inserirTodas :: "HashTable option \<Rightarrow> (string \<times> string) list \<Rightarrow> fault + HashTable option" where
  "inserirTodas ht [] = Inr ht"
| "inserirTodas ht ((p, s) # ps) =
     (case inserirNaHash ht (Some p) (Some (Fora s)) of
        Inl f \<Rightarrow> Inl f
      | Inr ht' \<Rightarrow> inserirTodas ht' ps)"

definition popularHash :: "fault + HashTable option" where
  "popularHash = inserirTodas (Some (criarHash 101)) associacoes"

text \<open>\<^verbatim>\<open>fgets(buf, n, stdin)\<close>: at most \<open>n - 1\<close> bytes, up to and with the first newline;
  \<open>None\<close> at the end of the input. The result is the bytes read and the input left.\<close>

definition fgets :: "nat \<Rightarrow> string \<Rightarrow> (string \<times> string) option" where
  "fgets n inp =
     (if inp = [] then None
      else
        let linha = takeWhile (\<lambda>c. c \<noteq> CHR 0x0A) inp in
        if n - 1 \<le> length linha then Some (take (n - 1) inp, drop (n - 1) inp)
        else if length linha < length inp
          then Some (linha @ [CHR 0x0A], drop (Suc (length linha)) inp)
        else Some (linha, []))"

text \<open>The C string that a buffer holds: its bytes in front of the first NUL.\<close>

definition c_string :: "string \<Rightarrow> string" where
  "c_string bytes = takeWhile (\<lambda>c. c \<noteq> CHR 0x00) bytes"

definition trim_inplace :: "string \<Rightarrow> string" where
  "trim_inplace s =
     (let s1 = rev (dropWhile (\<lambda>c. c = CHR 0x0A \<or> c = CHR 0x0D) (rev s));
          s2 = dropWhile isspace s1
      in rev (dropWhile isspace (rev s2)))"

text \<open>The final phase of \<^verbatim>\<open>main\<close>: list the clues, read the accusation, judge it.
  The result is everything printed.\<close>

definition faseFinal :: "HashTable option \<Rightarrow> estado \<Rightarrow> fault + evento list" where
  "faseFinal ht st =
     (let st1 = printf [FaseFinal] st;
          st2 = (if raizPistas st1 = Nulo then printf [NenhumaPistaColetada] st1
                 else printf (PistasColetadas # map LinhaPista (listarPistas (raizPistas st1))) st1);
          st3 = printf [PedirAcusacao] st2
      in case fgets 256 (stdin st3) of
           None \<Rightarrow> Inr (stdout (printf [ErroAoLer] st3))
         | Some (lido, rest) \<Rightarrow>
             let buf = trim_inplace (c_string lido) in
             if length buf = 0 then Inr (stdout (printf [NenhumSuspeitoInformado] st3))
             else
               bind_f (verificarSuspeitoFinal (raizPistas st3) ht (Some buf)) (\<lambda>contador.
                 Inr (stdout (printf
                   ([VoceAcusou buf, NumeroDePistas buf contador] @ veredito buf contador
                    @ [Obrigado]) st3))))"

definition main :: "string \<Rightarrow> fault + evento list" where
  "main inp =
     bind_f popularHash (\<lambda>ht.
       bind_f (explorarSalas mansao ht \<lparr>raizPistas = Nulo, stdin = inp, stdout = [Titulo, BemVindo]\<rparr>)
         (faseFinal ht))"

subsection \<open>The room-only explorer\<close>

text \<open>
  The earlier program of the repository walks the rooms without clues. Its room holds the
  name in an array of 50 bytes, filled by \<^verbatim>\<open>strcpy\<close>; its loop stops at a room
  without exits, reads the choice without looking at the result of \<^verbatim>\<open>scanf\<close> and
  leaves the rest of the line in the input. Its names carry the suffix \<open>_p0\<close>.
\<close>

datatype Sala_p0 = Nula_p0 | Sala_p0 string Sala_p0 Sala_p0

definition criarSala_p0 :: "string \<Rightarrow> fault + Sala_p0" where
  "criarSala_p0 nome =
     (if 50 \<le> length nome then Inl ForaDosLimites else Inr (Sala_p0 nome Nula_p0 Nula_p0))"

datatype evento_p0 =
    SalaAtual_p0 string
  | SemMaisCaminhos_p0
  | ParaOnde_p0
  | OpcaoEsquerda_p0 string
  | OpcaoDireita_p0 string
  | OpcaoSair_p0
  | Escolha_p0
  | SemSalaEsquerda_p0
  | SemSalaDireita_p0
  | Saindo_p0
  | OpcaoInvalida_p0
  | Titulo_p0

record console_p0 =
  stdin_p0 :: string
  stdout_p0 :: "evento_p0 list"

definition printf_p0 :: "evento_p0 list \<Rightarrow> console_p0 \<Rightarrow> console_p0" where
  "printf_p0 es con = con\<lparr>stdout_p0 := stdout_p0 con @ es\<rparr>"

fun menu_p0 :: "Sala_p0 \<Rightarrow> evento_p0 list" where
  "menu_p0 Nula_p0 = []"
| "menu_p0 (Sala_p0 nome e d) =
     [ParaOnde_p0]
     @ (case e of Nula_p0 \<Rightarrow> [] | Sala_p0 ne _ _ \<Rightarrow> [OpcaoEsquerda_p0 ne])
     @ (case d of Nula_p0 \<Rightarrow> [] | Sala_p0 nd _ _ \<Rightarrow> [OpcaoDireita_p0 nd])
     @ [OpcaoSair_p0, Escolha_p0]"

function explorarSalas_p0 :: "Sala_p0 \<Rightarrow> console_p0 \<Rightarrow> fault + console_p0" where
  "explorarSalas_p0 Nula_p0 con = Inr con"
| "explorarSalas_p0 (Sala_p0 nome e d) con =
     (let con1 = printf_p0 [SalaAtual_p0 nome] con in
      if e = Nula_p0 \<and> d = Nula_p0 then Inr (printf_p0 [SemMaisCaminhos_p0] con1)
      else
        let con2 = printf_p0 (menu_p0 (Sala_p0 nome e d)) con1 in
        (case scanf_char (stdin_p0 con2) of
           None \<Rightarrow> Inl ValorIndeterminado
         | Some (opcao, rest) \<Rightarrow>
             let con3 = con2\<lparr>stdin_p0 := rest\<rparr> in
             if opcao = CHR ''e'' \<or> opcao = CHR ''E'' then
               (if e \<noteq> Nula_p0 then explorarSalas_p0 e con3
                else explorarSalas_p0 (Sala_p0 nome e d) (printf_p0 [SemSalaEsquerda_p0] con3))
             else if opcao = CHR ''d'' \<or> opcao = CHR ''D'' then
               (if d \<noteq> Nula_p0 then explorarSalas_p0 d con3
                else explorarSalas_p0 (Sala_p0 nome e d) (printf_p0 [SemSalaDireita_p0] con3))
             else if opcao = CHR ''s'' \<or> opcao = CHR ''S'' then Inr (printf_p0 [Saindo_p0] con3)
             else explorarSalas_p0 (Sala_p0 nome e d) (printf_p0 [OpcaoInvalida_p0] con3)))"
  by pat_completeness auto

termination explorarSalas_p0
proof -
  have ler: "length rest < length inp" if "scanf_char inp = Some (c, rest)" for inp c rest
    using that length_dropWhile_le [of isspace inp]
    by (auto simp: scanf_char_def split: list.splits)
  show ?thesis
    by (relation "measure (\<lambda>(node, con). length (stdin_p0 con))")
       (auto simp: printf_p0_def dest: ler)
qed

text \<open>The map of the room-only program and the program itself.\<close>

definition ligar_p0 :: "Sala_p0 \<Rightarrow> Sala_p0 \<Rightarrow> Sala_p0 \<Rightarrow> Sala_p0" where
  "ligar_p0 sala e d = (case sala of Nula_p0 \<Rightarrow> Nula_p0 | Sala_p0 nome _ _ \<Rightarrow> Sala_p0 nome e d)"

definition mansao_p0 :: "fault + Sala_p0" where
  "mansao_p0 =
     bind_f (criarSala_p0 ''Hall de Entrada'') (\<lambda>hall.
     bind_f (criarSala_p0 ''Sala de Estar'') (\<lambda>estar.
     bind_f (criarSala_p0 ''Cozinha'') (\<lambda>cozinha.
     bind_f (criarSala_p0 ''Biblioteca'') (\<lambda>biblioteca.
     bind_f (criarSala_p0 ''Jardim de Inverno'') (\<lambda>jardim.
     bind_f (criarSala_p0 ''Despensa'') (\<lambda>despensa.
     bind_f (criarSala_p0 Porao) (\<lambda>porao.
       Inr (ligar_p0 hall (ligar_p0 estar biblioteca jardim)
              (ligar_p0 cozinha despensa porao)))))))))"

definition main_p0 :: "string \<Rightarrow> fault + console_p0" where
  "main_p0 inp =
     bind_f mansao_p0 (\<lambda>hall.
       explorarSalas_p0 hall \<lparr>stdin_p0 = inp, stdout_p0 = [Titulo_p0]\<rparr>)"

subsection \<open>Notions used to state the properties\<close>

text \<open>A table as \<^verbatim>\<open>criarHash\<close> makes it and \<^verbatim>\<open>inserirNaHash\<close> keeps it: the
  array has as many buckets as the count says, and at least one. A table pointer is
  sound when it is \<^verbatim>\<open>NULL\<close> or points to such a table.\<close>

definition tabela_ok :: "HashTable \<Rightarrow> bool" where
  "tabela_ok ht = (0 < size_ht ht \<and> length (buckets ht) = size_ht ht)"

definition ponteiro_ok :: "HashTable option \<Rightarrow> bool" where
  "ponteiro_ok ht = (case ht of None \<Rightarrow> True | Some t \<Rightarrow> tabela_ok t)"

text \<open>The entries a table holds, and the names of the rooms of a map.\<close>

definition numEntradas :: "HashTable option \<Rightarrow> nat" where
  "numEntradas ht = (case ht of None \<Rightarrow> 0 | Some t \<Rightarrow> length (concat (buckets t)))"

fun nomes :: "Sala \<Rightarrow> string list" where
  "nomes SalaNula = []"
| "nomes (Sala nome e d) = nome # nomes e @ nomes d"

fun nomes_p0 :: "Sala_p0 \<Rightarrow> string list" where
  "nomes_p0 Nula_p0 = []"
| "nomes_p0 (Sala_p0 nome e d) = nome # nomes_p0 e @ nomes_p0 d"

text \<open>A choice that is not valid at a room: a direction without a room behind it, or a
  byte that is none of the three commands. The message the loop prints for it.\<close>

fun escolha_invalida :: "Sala \<Rightarrow> char \<Rightarrow> bool" where
  "escolha_invalida SalaNula op = False"
| "escolha_invalida (Sala nome e d) op =
     (if op = CHR ''e'' \<or> op = CHR ''E'' then e = SalaNula
      else if op = CHR ''d'' \<or> op = CHR ''D'' then d = SalaNula
      else \<not> (op = CHR ''s'' \<or> op = CHR ''S''))"

definition relato :: "char \<Rightarrow> evento" where
  "relato op =
     (if op = CHR ''e'' \<or> op = CHR ''E'' then SemCaminhoEsquerda
      else if op = CHR ''d'' \<or> op = CHR ''D'' then SemCaminhoDireita
      else OpcaoInvalida)"

text \<open>The puts of a run, as a get sees them: all puts of \<open>ps\<close> on a fresh table of
  \<open>n\<close> buckets, then one get.\<close>

definition get_apos_puts :: "nat \<Rightarrow> (string \<times> string) list \<Rightarrow> string \<Rightarrow> fault + string option" where
  "get_apos_puts n ps k =
     bind_f (inserirTodas (Some (criarHash n)) ps) (\<lambda>ht. encontrarSuspeito ht (Some k))"

text \<open>The number of collected clues that the table links to the accused.\<close>

definition pistas_contra :: "NoPista \<Rightarrow> HashTable option \<Rightarrow> string \<Rightarrow> nat" where
  "pistas_contra raiz ht acusado =
     length (filter (\<lambda>p. encontrarSuspeito ht (Some p) = Inr (Some acusado)) (listarPistas raiz))"

text \<open>What the search loop finds for a clue in its bucket of a sound table.\<close>

definition consulta :: "HashTable \<Rightarrow> string \<Rightarrow> string option" where
  "consulta ht k = encontrarSuspeito_laco (buckets ht ! (unat (hash_djb2 k) mod size_ht ht)) k"

text \<open>The table pointer that \<^verbatim>\<open>main\<close> holds after it has filled the table.\<close>

definition tabela_de_main :: "HashTable option" where
  "tabela_de_main = (case popularHash of Inl f \<Rightarrow> None | Inr ht \<Rightarrow> ht)"

section \<open>Properties\<close>

subsection \<open>The byte order of \<open>strcmp\<close>\<close>

lemma of_char_nat_eq_iff: "((of_char x :: nat) = of_char y) = (x = y)"
  by (metis char_of_char)

lemma strcmp_refl: "strcmp a a = 0"
  by (induction a) auto

lemma strcmp_eq_0: "(strcmp a b = 0) = (a = b)"
  by (induction a b rule: strcmp.induct) (auto simp: of_char_nat_eq_iff)

lemma strcmp_swap: "(0 < strcmp b a) = (strcmp a b < 0)"
  by (induction a b rule: strcmp.induct) (auto simp: of_char_nat_eq_iff)

lemma strcmp_trans: "strcmp a b < 0 \<Longrightarrow> strcmp b c < 0 \<Longrightarrow> strcmp a c < 0"
proof (induction a b arbitrary: c rule: strcmp.induct)
  case 1
  then show ?case by simp
next
  case (2 y ys)
  then show ?case by (cases c) simp_all
next
  case (3 x xs)
  then show ?case by simp
next
  case (4 x xs y ys)
  show ?case
  proof (cases c)
    case Nil
    with "4.prems" show ?thesis by simp
  next
    case (Cons z zs)
    from "4.prems"(1) have xy: "(of_char x :: nat) \<le> of_char y"
      by (simp split: if_splits)
    from "4.prems"(2) Cons have yz: "(of_char y :: nat) \<le> of_char z"
      by (simp split: if_splits)
    show ?thesis
    proof (cases "(of_char x :: nat) < of_char z")
      case True
      with Cons show ?thesis by simp
    next
      case False
      with xy yz have e1: "(of_char x :: nat) = of_char y" and e2: "(of_char y :: nat) = of_char z"
        by linarith+
      from e1 "4.prems"(1) have a: "strcmp xs ys < 0" by simp
      from e2 "4.prems"(2) Cons have b: "strcmp ys zs < 0" by simp
      from e1 have n1: "\<not> (of_char x :: nat) < of_char y" "\<not> (of_char y :: nat) < of_char x" by simp_all
      from "4.IH" [OF n1 a b] have "strcmp xs zs < 0" .
      with e1 e2 Cons show ?thesis by simp
    qed
  qed
qed

lemma strcmp_total: "\<not> strcmp a b < 0 \<Longrightarrow> strcmp a b \<noteq> 0 \<Longrightarrow> strcmp b a < 0"
  using strcmp_swap [of a b] by linarith

lemma strcmp_asym: "strcmp a b < 0 \<Longrightarrow> \<not> strcmp b a < 0"
  using strcmp_swap [of a b] by linarith

subsection \<open>The search tree of clues\<close>

lemma set_listarPistas_inserirPista:
  "set (listarPistas (inserirPista t (Some p))) = insert p (set (listarPistas t))"
  by (induction t) (auto simp: Let_def strcmp_eq_0)

lemma bst_inserirPista: "bst t \<Longrightarrow> bst (inserirPista t p)"
proof (cases p)
  case None
  assume "bst t"
  with None show ?thesis by simp
next
  case (Some s)
  assume "bst t"
  then have "bst (inserirPista t (Some s))"
  proof (induction t)
    case Nulo
    then show ?case by simp
  next
    case (No q l r)
    then show ?case
      by (auto simp: Let_def set_listarPistas_inserirPista strcmp_swap strcmp_total)
  qed
  with Some show ?thesis by simp
qed

lemma bst_foldl_inserirPista: "bst t \<Longrightarrow> bst (foldl inserirPista t ps)"
  by (induction ps arbitrary: t) (simp_all add: bst_inserirPista)

lemma bst_strictly_sorted:
  "bst t \<Longrightarrow> sorted_wrt (\<lambda>a b. strcmp a b < 0) (listarPistas t)"
proof (induction t)
  case Nulo
  then show ?case by simp
next
  case (No q l r)
  have "strcmp x y < 0" if "x \<in> set (listarPistas l)" "y \<in> set (listarPistas r)" for x y
  proof -
    from No.prems that have "strcmp x q < 0" "strcmp q y < 0"
      by (auto simp: strcmp_swap)
    then show ?thesis by (rule strcmp_trans)
  qed
  with No show ?case
    by (auto simp: sorted_wrt_append strcmp_swap)
qed

lemma buscaPista_range: "buscaPista t p = 0 \<or> buscaPista t p = 1"
  by (induction t p rule: buscaPista.induct) (auto simp: Let_def)

lemma buscaPista_inserirPista_same: "buscaPista (inserirPista t (Some p)) (Some p) = 1"
  by (induction t) (auto simp: Let_def strcmp_refl)

lemma buscaPista_inserirPista_keeps:
  "buscaPista t (Some p) = 1 \<Longrightarrow> buscaPista (inserirPista t q) (Some p) = 1"
proof (cases q)
  case None
  assume "buscaPista t (Some p) = 1"
  with None show ?thesis by simp
next
  case (Some s)
  assume "buscaPista t (Some p) = 1"
  then have "buscaPista (inserirPista t (Some s)) (Some p) = 1"
    by (induction t) (auto simp: Let_def split: if_splits)
  with Some show ?thesis by simp
qed

lemma buscaPista_foldl_keeps:
  "buscaPista t (Some p) = 1 \<Longrightarrow> buscaPista (foldl inserirPista t qs) (Some p) = 1"
  by (induction qs arbitrary: t) (simp_all add: buscaPista_inserirPista_keeps)

lemma inserirPista_present: "buscaPista t (Some p) = 1 \<Longrightarrow> inserirPista t (Some p) = t"
  by (induction t) (auto simp: Let_def split: if_splits)

lemma buscaPista_iff_listed:
  "bst t \<Longrightarrow> (buscaPista t (Some p) = 1) = (p \<in> set (listarPistas t))"
proof (induction t)
  case Nulo
  then show ?case by simp
next
  case (No q l r)
  show ?case
  proof (cases "strcmp p q = 0")
    case True
    then show ?thesis by (simp add: strcmp_eq_0)
  next
    case False
    note ne = this
    show ?thesis
    proof (cases "strcmp p q < 0")
      case True
      with No.prems have "p \<notin> set (listarPistas r)"
        by (auto simp: strcmp_swap dest: strcmp_asym)
      with True ne No show ?thesis by (auto simp: strcmp_eq_0)
    next
      case False
      with No.prems have "p \<notin> set (listarPistas l)"
        by auto
      with False ne No show ?thesis by (auto simp: strcmp_eq_0)
    qed
  qed
qed

lemma strictly_sorted_distinct:
  "sorted_wrt (\<lambda>a b. strcmp a b < 0) xs \<Longrightarrow> distinct xs"
  by (induction xs) (auto simp: strcmp_refl)

subsection \<open>The table\<close>

lemma encontrarSuspeito_ok:
  "tabela_ok ht \<Longrightarrow> encontrarSuspeito (Some ht) (Some k) = Inr (consulta ht k)"
proof -
  assume ok: "tabela_ok ht"
  then have pos: "0 < size_ht ht" and len: "length (buckets ht) = size_ht ht"
    by (simp_all add: tabela_ok_def)
  from pos have "unat (hash_djb2 k) mod size_ht ht < size_ht ht"
    by (rule mod_less_divisor)
  with pos len show ?thesis
    by (simp add: consulta_def Let_def)
qed

lemma ler_texto_Fora [simp]: "ler_texto ht (Fora s) = Inr s"
  by (simp add: ler_texto_def)

lemma ler_apos_liberar_Fora [simp]: "ler_apos_liberar ht p (Fora s) = Inr s"
  by (simp add: ler_apos_liberar_def)

lemma laco_fora_no_fault: "inserirNaHash_laco ht ch k (Fora s) \<noteq> Inl f"
  by (induction ch) (auto simp: ler_apos_liberar_def split: sum.splits option.splits)

lemma laco_replaced:
  "inserirNaHash_laco ht ch k (Fora s) = Inr (Some ch') \<Longrightarrow>
   encontrarSuspeito_laco ch' k' = (if k' = k then Some s else encontrarSuspeito_laco ch k')"
proof (induction ch arbitrary: ch')
  case Nil
  then show ?case by simp
next
  case (Cons cur prox)
  show ?case
  proof (cases "strcmp (pista cur) k = 0")
    case True
    with Cons.prems show ?thesis by (auto simp: strcmp_eq_0 ler_apos_liberar_def)
  next
    case False
    with Cons.prems obtain prox' where
      p: "inserirNaHash_laco ht prox k (Fora s) = Inr (Some prox')" and c: "ch' = cur # prox'"
      by (auto split: sum.splits option.splits)
    from False have "pista cur \<noteq> k" by (simp add: strcmp_eq_0)
    with Cons.IH [OF p] c show ?thesis by (auto simp: strcmp_eq_0)
  qed
qed

lemma laco_stored_faults:
  "encontrarSuspeito_laco ch p = Some x \<Longrightarrow>
   inserirNaHash_laco ht ch p (Guardado p off) = Inl UsoAposLiberar"
  by (induction ch) (auto simp: ler_apos_liberar_def)

lemma inserirNaHash_ok:
  assumes "tabela_ok ht"
  shows "\<exists>ht'. inserirNaHash (Some ht) (Some k) (Some (Fora s)) = Inr (Some ht') \<and> tabela_ok ht'
           \<and> size_ht ht' = size_ht ht
           \<and> (\<forall>k'. consulta ht' k' = (if k' = k then Some s else consulta ht k'))"
proof -
  let ?h = "unat (hash_djb2 k) mod size_ht ht"
  from assms have pos: "0 < size_ht ht" and len: "length (buckets ht) = size_ht ht"
    by (simp_all add: tabela_ok_def)
  then have h: "?h < length (buckets ht)" by simp
  consider (absent) "inserirNaHash_laco ht (buckets ht ! ?h) k (Fora s) = Inr None"
    | (present) ch' where "inserirNaHash_laco ht (buckets ht ! ?h) k (Fora s) = Inr (Some ch')"
    using laco_fora_no_fault [of ht "buckets ht ! ?h" k s]
    by (cases "inserirNaHash_laco ht (buckets ht ! ?h) k (Fora s)") auto
  then show ?thesis
  proof cases
    case absent
    let ?t = "ht\<lparr>buckets := (buckets ht)[?h := \<lparr>pista = k, suspeito = s\<rparr> # buckets ht ! ?h]\<rparr>"
    from absent pos h have r: "inserirNaHash (Some ht) (Some k) (Some (Fora s)) = Inr (Some ?t)"
      by (simp add: Let_def ler_texto_def)
    have ok: "tabela_ok ?t" using assms by (simp add: tabela_ok_def)
    have "consulta ?t k' = (if k' = k then Some s else consulta ht k')" for k'
    proof (cases "unat (hash_djb2 k') mod size_ht ht = ?h")
      case True
      with h show ?thesis
        by (auto simp: consulta_def strcmp_eq_0)
    next
      case False
      then have "k' \<noteq> k" by auto
      with False h show ?thesis by (simp add: consulta_def)
    qed
    with r ok show ?thesis by auto
  next
    case present
    let ?t = "ht\<lparr>buckets := (buckets ht)[?h := ch']\<rparr>"
    from present pos h have r: "inserirNaHash (Some ht) (Some k) (Some (Fora s)) = Inr (Some ?t)"
      by (simp add: Let_def)
    have ok: "tabela_ok ?t" using assms by (simp add: tabela_ok_def)
    have "consulta ?t k' = (if k' = k then Some s else consulta ht k')" for k'
    proof (cases "unat (hash_djb2 k') mod size_ht ht = ?h")
      case True
      with h laco_replaced [OF present, of k'] show ?thesis
        by (simp add: consulta_def)
    next
      case False
      then have "k' \<noteq> k" by auto
      with False h show ?thesis by (simp add: consulta_def)
    qed
    with r ok show ?thesis by auto
  qed
qed

lemma inserirNaHash_stored_faults:
  assumes "tabela_ok ht" and "consulta ht p = Some x"
  shows "inserirNaHash (Some ht) (Some p) (Some (Guardado p off)) = Inl UsoAposLiberar"
proof -
  let ?h = "unat (hash_djb2 p) mod size_ht ht"
  from assms(1) have pos: "0 < size_ht ht" and len: "length (buckets ht) = size_ht ht"
    by (simp_all add: tabela_ok_def)
  then have h: "?h < length (buckets ht)" by simp
  from assms(2) have "encontrarSuspeito_laco (buckets ht ! ?h) p = Some x"
    by (simp add: consulta_def)
  then have "inserirNaHash_laco ht (buckets ht ! ?h) p (Guardado p off) = Inl UsoAposLiberar"
    by (rule laco_stored_faults)
  with pos h show ?thesis by (simp add: Let_def)
qed

lemma inserirTodas_ok:
  "tabela_ok ht \<Longrightarrow>
   \<exists>ht'. inserirTodas (Some ht) ps = Inr (Some ht') \<and> tabela_ok ht'
     \<and> (\<forall>k. consulta ht' k = (case map_of (rev ps) k of Some s \<Rightarrow> Some s | None \<Rightarrow> consulta ht k))"
proof (induction ps arbitrary: ht)
  case Nil
  then show ?case by simp
next
  case (Cons a ps)
  obtain p s where a: "a = (p, s)" by (cases a)
  from inserirNaHash_ok [OF Cons.prems, of p s] obtain h1 where
    h1: "inserirNaHash (Some ht) (Some p) (Some (Fora s)) = Inr (Some h1)" "tabela_ok h1"
        "\<And>k'. consulta h1 k' = (if k' = p then Some s else consulta ht k')"
    by blast
  from Cons.IH [OF h1(2)] obtain h2 where
    h2: "inserirTodas (Some h1) ps = Inr (Some h2)" "tabela_ok h2"
        "\<And>k. consulta h2 k = (case map_of (rev ps) k of Some s \<Rightarrow> Some s | None \<Rightarrow> consulta h1 k)"
    by blast
  have "consulta h2 k = (case map_of (rev (a # ps)) k of Some s \<Rightarrow> Some s | None \<Rightarrow> consulta ht k)" for k
    using h2(3) [of k] h1(3) [of k] a
    by (auto simp: map_add_def split: option.splits)
  with h1(1) h2(1) h2(2) a show ?case by auto
qed

lemma consulta_criarHash: "0 < n \<Longrightarrow> consulta (criarHash n) k = None"
  by (simp add: consulta_def criarHash_def)

lemma tabela_ok_criarHash: "0 < n \<Longrightarrow> tabela_ok (criarHash n)"
  by (simp add: tabela_ok_def criarHash_def)

lemma get_apos_puts_map_of:
  assumes "0 < n"
  shows "get_apos_puts n ps k = Inr (map_of (rev ps) k)"
proof -
  from inserirTodas_ok [OF tabela_ok_criarHash [OF assms], of ps] obtain ht' where
    t: "inserirTodas (Some (criarHash n)) ps = Inr (Some ht')" "tabela_ok ht'"
       "\<And>k. consulta ht' k = (case map_of (rev ps) k of Some s \<Rightarrow> Some s | None \<Rightarrow> consulta (criarHash n) k)"
    by blast
  from t(3) [of k] consulta_criarHash [OF assms, of k]
  have "consulta ht' k = map_of (rev ps) k" by (simp split: option.splits)
  with encontrarSuspeito_ok [OF t(2), of k]
  have "encontrarSuspeito (Some ht') (Some k) = Inr (map_of (rev ps) k)" by simp
  with t(1) show ?thesis
    by (simp add: get_apos_puts_def bind_f_def del: encontrarSuspeito.simps)
qed

text \<open>
  On a fresh table with at least one bucket, after any run of puts whose texts lie outside
  the table, a get for a clue returns the suspect of the most recent put for exactly that
  clue text, whatever was put before, and \<^verbatim>\<open>NULL\<close> for a clue that was never put.
  A put of the pointer that a get returned for the same clue is undefined.
\<close>

lemma puts_from_outside_last_wins:
  assumes "0 < n"
  shows "(k \<notin> fst ` set qs \<longrightarrow> get_apos_puts n (ps @ (k, s) # qs) k = Inr (Some s))
       \<and> (k \<notin> fst ` set ps \<longrightarrow> get_apos_puts n ps k = Inr None)"
proof (intro conjI impI)
  assume "k \<notin> fst ` set qs"
  then have "map_of (rev qs) k = None" by (simp add: map_of_eq_None_iff)
  then have "map_of (rev (ps @ (k, s) # qs)) k = Some s"
    by (simp add: map_add_def)
  with get_apos_puts_map_of [OF assms] show "get_apos_puts n (ps @ (k, s) # qs) k = Inr (Some s)"
    by simp
next
  assume "k \<notin> fst ` set ps"
  then have "map_of (rev ps) k = None" by (simp add: map_of_eq_None_iff)
  with get_apos_puts_map_of [OF assms] show "get_apos_puts n ps k = Inr None"
    by simp
qed

subsection \<open>Counting the clues against a suspect\<close>

lemma encontrarSuspeito_ponteiro_ok:
  "ponteiro_ok ht \<Longrightarrow> \<exists>r. encontrarSuspeito ht k = Inr r"
proof (cases ht)
  case None
  then show ?thesis by simp
next
  case (Some t)
  assume "ponteiro_ok ht"
  with Some have ok: "tabela_ok t" by (simp add: ponteiro_ok_def)
  show ?thesis
  proof (cases k)
    case None
    with Some show ?thesis by simp
  next
    case (Some p)
    with encontrarSuspeito_ok [OF ok, of p] \<open>ht = Some t\<close> show ?thesis by simp
  qed
qed

lemma auxiliarContagem_counts:
  assumes "ponteiro_ok ht"
  shows "contador + int (pistas_contra raiz ht acusado) \<le> INT_MAX \<Longrightarrow>
         auxiliarContagem raiz ht acusado contador = Inr (contador + int (pistas_contra raiz ht acusado))"
proof (induction raiz arbitrary: contador)
  case Nulo
  then show ?case by (simp add: pistas_contra_def)
next
  case (No p l r)
  let ?m = "if encontrarSuspeito ht (Some p) = Inr (Some acusado) then 1 else 0 :: nat"
  have split: "pistas_contra (No p l r) ht acusado
      = pistas_contra l ht acusado + ?m + pistas_contra r ht acusado"
    by (simp add: pistas_contra_def)
  from No.prems split
  have bl: "contador + int (pistas_contra l ht acusado) \<le> INT_MAX" by simp
  from No.IH(1) [OF bl]
  have l: "auxiliarContagem l ht acusado contador = Inr (contador + int (pistas_contra l ht acusado))" .
  let ?c1 = "contador + int (pistas_contra l ht acusado)"
  from encontrarSuspeito_ponteiro_ok [OF assms, of "Some p"]
  obtain s where s: "encontrarSuspeito ht (Some p) = Inr s" by blast
  have mid: "(case s of None \<Rightarrow> Inr ?c1
              | Some nome_s \<Rightarrow> if strcmp nome_s acusado = 0 then incrementar ?c1 else Inr ?c1)
             = Inr (?c1 + int ?m)"
  proof (cases s)
    case None
    with s show ?thesis by simp
  next
    case (Some nome_s)
    show ?thesis
    proof (cases "nome_s = acusado")
      case True
      with s Some have m: "?m = 1" by simp
      with No.prems split have "?c1 < INT_MAX" by simp
      with True Some m show ?thesis by (simp add: incrementar_def strcmp_eq_0)
    next
      case False
      with s Some show ?thesis by (simp add: strcmp_eq_0)
    qed
  qed
  from No.prems split
  have br: "(?c1 + int ?m) + int (pistas_contra r ht acusado) \<le> INT_MAX" by simp
  from No.IH(2) [OF br]
  have r: "auxiliarContagem r ht acusado (?c1 + int ?m)
      = Inr (?c1 + int ?m + int (pistas_contra r ht acusado))" .
  have "auxiliarContagem (No p l r) ht acusado contador
      = Inr (?c1 + int ?m + int (pistas_contra r ht acusado))"
    using l s mid r by (simp del: encontrarSuspeito.simps)
  with split show ?case by simp
qed

lemma verificarSuspeitoFinal_counts:
  assumes "ponteiro_ok ht" and "int (pistas_contra raiz ht acusado) \<le> INT_MAX"
  shows "verificarSuspeitoFinal raiz ht (Some acusado) = Inr (int (pistas_contra raiz ht acusado))"
proof (cases raiz)
  case Nulo
  then show ?thesis by (simp add: pistas_contra_def)
next
  case (No p l r)
  with auxiliarContagem_counts [OF assms(1), of 0 raiz acusado] assms(2)
  show ?thesis by simp
qed

subsection \<open>Claims about the set of clues\<close>

text \<open>
  C2. An insert keeps the ordering property of the search tree; so every tree built from
  the empty one by inserts (a \<^verbatim>\<open>NULL\<close> text among them or not) has the property:
  each clue in a left subtree compares less than the clue of the node and each clue in a
  right subtree compares greater. The in-order listing of such a tree is non-decreasing
  under \<^verbatim>\<open>strcmp\<close>, for any order of the inserts.
\<close>

theorem clue_tree_ordered:
  "(bst raiz \<longrightarrow> bst (inserirPista raiz p))
   \<and> bst (foldl inserirPista Nulo ps)
   \<and> sorted_wrt (\<lambda>a b. strcmp a b \<le> 0) (listarPistas (foldl inserirPista Nulo ps))"
proof -
  have b: "bst (foldl inserirPista Nulo ps)"
    by (rule bst_foldl_inserirPista) simp
  from bst_strictly_sorted [OF b]
  have "sorted_wrt (\<lambda>a b. strcmp a b \<le> 0) (listarPistas (foldl inserirPista Nulo ps))"
    by (rule sorted_wrt_mono_rel [rotated]) simp
  with b show ?thesis by (simp add: bst_inserirPista)
qed

theorem clue_tree_ordered_witness:
  "bst (No ''fio de cabelo'' Nulo Nulo)
   \<and> bst (inserirPista (No ''fio de cabelo'' Nulo Nulo) (Some ''anel riscado''))
   \<and> bst (foldl inserirPista Nulo
        [Some ''pegada molhada'', Some ''cheiro de queimado'', None, Some ''mancha de tinta''])
   \<and> listarPistas (foldl inserirPista Nulo
        [Some ''pegada molhada'', Some ''cheiro de queimado'', None, Some ''mancha de tinta''])
      = [''cheiro de queimado'', ''mancha de tinta'', ''pegada molhada'']
   \<and> sorted_wrt (\<lambda>a b. strcmp a b \<le> 0)
        [''cheiro de queimado'', ''mancha de tinta'', ''pegada molhada'']"
  using clue_tree_ordered [of "No ''fio de cabelo'' Nulo Nulo" "Some ''anel riscado''"
      "[Some ''pegada molhada'', Some ''cheiro de queimado'', None, Some ''mancha de tinta'']"]
  by simp

text \<open>
  C3. For every tree of clues and every clue text, the search finds the text right after
  its insert, and still finds it after any later inserts of other arguments: an insert
  never removes or hides an element.
\<close>

theorem inserted_clue_stays_found:
  "buscaPista (inserirPista raiz (Some p)) (Some p) = 1
   \<and> buscaPista (foldl inserirPista (inserirPista raiz (Some p)) qs) (Some p) = 1"
  by (simp add: buscaPista_inserirPista_same buscaPista_foldl_keeps)

text \<open>
  C4. In a set of clues built by inserts from the empty one, inserting a text that the set
  lists returns the very same tree, so the listing keeps its length and content; and the
  listing holds no text twice.
\<close>

theorem insert_present_clue_unchanged:
  assumes "p \<in> set (listarPistas (foldl inserirPista Nulo ps))"
  shows "inserirPista (foldl inserirPista Nulo ps) (Some p) = foldl inserirPista Nulo ps
       \<and> listarPistas (inserirPista (foldl inserirPista Nulo ps) (Some p))
           = listarPistas (foldl inserirPista Nulo ps)
       \<and> distinct (listarPistas (foldl inserirPista Nulo ps))"
proof -
  have b: "bst (foldl inserirPista Nulo ps)"
    by (rule bst_foldl_inserirPista) simp
  from assms buscaPista_iff_listed [OF b, of p]
  have "buscaPista (foldl inserirPista Nulo ps) (Some p) = 1" by simp
  then have "inserirPista (foldl inserirPista Nulo ps) (Some p) = foldl inserirPista Nulo ps"
    by (rule inserirPista_present)
  moreover from bst_strictly_sorted [OF b]
  have "distinct (listarPistas (foldl inserirPista Nulo ps))"
    by (rule strictly_sorted_distinct)
  ultimately show ?thesis by simp
qed

theorem insert_present_clue_unchanged_witness:
  "''fio de cabelo'' \<in> set (listarPistas (foldl inserirPista Nulo
       [Some ''pegada molhada'', Some ''fio de cabelo'', Some ''bilhete rasgado'']))
   \<and> inserirPista (foldl inserirPista Nulo
       [Some ''pegada molhada'', Some ''fio de cabelo'', Some ''bilhete rasgado''])
       (Some ''fio de cabelo'')
     = No ''pegada molhada'' (No ''fio de cabelo'' (No ''bilhete rasgado'' Nulo Nulo) Nulo) Nulo
   \<and> distinct (listarPistas (foldl inserirPista Nulo
       [Some ''pegada molhada'', Some ''fio de cabelo'', Some ''bilhete rasgado'']))"
proof -
  have h: "''fio de cabelo'' \<in> set (listarPistas (foldl inserirPista Nulo
       [Some ''pegada molhada'', Some ''fio de cabelo'', Some ''bilhete rasgado'']))"
    by simp
  from insert_present_clue_unchanged [OF h] h show ?thesis by simp
qed

subsection \<open>Claims about absent arguments\<close>

text \<open>
  C10. The four operations return normally on \<^verbatim>\<open>NULL\<close> arguments and change nothing:
  an insert of a \<^verbatim>\<open>NULL\<close> text returns the tree it was given, a search for a
  \<^verbatim>\<open>NULL\<close> text answers 0, a put with a \<^verbatim>\<open>NULL\<close> table, clue or suspect leaves the
  table as it was, and a get with a \<^verbatim>\<open>NULL\<close> table or clue returns \<^verbatim>\<open>NULL\<close>.
\<close>

theorem null_arguments_are_no_ops:
  "inserirPista raiz None = raiz
   \<and> buscaPista raiz None = 0
   \<and> inserirNaHash None p s = Inr None
   \<and> inserirNaHash ht None s = Inr ht
   \<and> inserirNaHash ht p None = Inr ht
   \<and> encontrarSuspeito None p = Inr None
   \<and> encontrarSuspeito ht None = Inr None"
proof -
  have "buscaPista raiz None = 0" by (cases raiz) simp_all
  moreover have "inserirNaHash ht None s = Inr ht" by (cases ht) simp_all
  moreover have "inserirNaHash ht p None = Inr ht" by (cases ht; cases p) simp_all
  moreover have "encontrarSuspeito ht None = Inr None" by (cases ht) simp_all
  ultimately show ?thesis by simp
qed

subsection \<open>The exploration loop\<close>

lemmas avaliar = tabela_de_main_def popularHash_def associacoes_def criarHash_def hash_djb2_def
      ler_texto_def ler_apos_liberar_def guardado_def
      criarSala_def bind_f_def coletar_def getPistaParaSala_def printf_def scanf_char_def
      limpar_linha_def isspace_def Let_def

lemma tabela_de_main_ok: "ponteiro_ok tabela_de_main"
  by (simp add: ponteiro_ok_def tabela_ok_def tabela_de_main_def popularHash_def associacoes_def
      criarHash_def hash_djb2_def)

lemma inserirPista_twice: "inserirPista (inserirPista t p) p = inserirPista t p"
proof (cases p)
  case None
  then show ?thesis by simp
next
  case (Some x)
  have "buscaPista (inserirPista t (Some x)) (Some x) = 1"
    by (rule buscaPista_inserirPista_same)
  then have "inserirPista (inserirPista t (Some x)) (Some x) = inserirPista t (Some x)"
    by (rule inserirPista_present)
  with Some show ?thesis by simp
qed

lemma coletar_ok:
  assumes "ponteiro_ok ht"
  shows "\<exists>st1. coletar nome ht st = Inr st1 \<and> stdin st1 = stdin st
           \<and> raizPistas st1 = inserirPista (raizPistas st) (getPistaParaSala (Some nome))
           \<and> (\<exists>es. stdout st1 = stdout st @ es)"
proof (cases "getPistaParaSala (Some nome)")
  case None
  then show ?thesis by (simp add: coletar_def printf_def)
next
  case (Some p)
  show ?thesis
  proof (cases "buscaPista (raizPistas st) (Some p) = 0")
    case True
    from encontrarSuspeito_ponteiro_ok [OF assms, of "Some p"]
    obtain s where s: "encontrarSuspeito ht (Some p) = Inr s" by blast
    with Some True show ?thesis
      by (cases s) (simp_all add: coletar_def printf_def bind_f_def Let_def del: encontrarSuspeito.simps)
  next
    case False
    with buscaPista_range [of "raizPistas st" "Some p"]
    have one: "buscaPista (raizPistas st) (Some p) = 1" by simp
    from inserirPista_present [OF one] Some False show ?thesis
      by (simp add: coletar_def printf_def Let_def)
  qed
qed

lemma navegar_invalida:
  assumes "scanf_char (stdin st) = Some (op, rest)" and "escolha_invalida (Sala nome e d) op"
  shows "navegar (Sala nome e d) st
       = (Continua (Sala nome e d), printf [relato op] (st\<lparr>stdin := limpar_linha rest\<rparr>))"
  using assms by (auto simp: relato_def Let_def split: if_splits)

subsection \<open>Claims about the judge\<close>

text \<open>
  C5. For every tree of collected clues, every sound table pointer and every accused name,
  as long as the count fits an \<^verbatim>\<open>int\<close>, \<^verbatim>\<open>verificarSuspeitoFinal\<close> returns the
  number of collected clues for which the table answers exactly the bytes of the accused
  name; and the verdict that \<^verbatim>\<open>main\<close> prints is "sustained" exactly when the count is
  at least 2, "insufficient" otherwise.
\<close>

theorem tally_counts_and_verdict:
  assumes "ponteiro_ok ht" and "int (pistas_contra raiz ht acusado) \<le> INT_MAX"
  shows "verificarSuspeitoFinal raiz ht (Some acusado) = Inr (int (pistas_contra raiz ht acusado))
       \<and> (veredito acusado contador = [AcusacaoSustentada acusado contador]) = (2 \<le> contador)
       \<and> (veredito acusado contador = [AcusacaoInsuficiente contador]) = (\<not> 2 \<le> contador)"
  using verificarSuspeitoFinal_counts [OF assms]
  by (simp add: veredito_def)


theorem tally_counts_and_verdict_witness:
  "ponteiro_ok tabela_de_main
   \<and> int (pistas_contra (foldl inserirPista Nulo
         [Some ''pegada molhada'', Some ''cheiro de queimado'', Some ''mancha de tinta''])
         tabela_de_main ''Sr. Avelar'') = 2
   \<and> (2::int) \<le> INT_MAX
   \<and> verificarSuspeitoFinal (foldl inserirPista Nulo
         [Some ''pegada molhada'', Some ''cheiro de queimado'', Some ''mancha de tinta''])
         tabela_de_main (Some ''Sr. Avelar'') = Inr 2
   \<and> veredito ''Sr. Avelar'' 2 = [AcusacaoSustentada ''Sr. Avelar'' 2]
   \<and> veredito ''Sr. Avelar'' 1 = [AcusacaoInsuficiente 1]"
proof -
  have h1: "ponteiro_ok tabela_de_main"
    by (rule tabela_de_main_ok)
  have c: "int (pistas_contra (foldl inserirPista Nulo
         [Some ''pegada molhada'', Some ''cheiro de queimado'', Some ''mancha de tinta''])
         tabela_de_main ''Sr. Avelar'') = 2"
    by (simp add: pistas_contra_def avaliar)
  then have h2: "int (pistas_contra (foldl inserirPista Nulo
         [Some ''pegada molhada'', Some ''cheiro de queimado'', Some ''mancha de tinta''])
         tabela_de_main ''Sr. Avelar'') \<le> INT_MAX"
    by (simp add: INT_MAX_def)
  from tally_counts_and_verdict [OF h1 h2, of 2] tally_counts_and_verdict [OF h1 h2, of 1] h1 c
  show ?thesis by (simp add: INT_MAX_def)
qed

subsection \<open>Claims about the exploration\<close>

text \<open>
  C6, as the code has it. In the full game a room without exits does not end the
  exploration: after the clue step the loop prints the leaf notice and the menu (which
  offers only the exit), prompts, and reads a choice; the pass returns at the end of the
  input or on \<open>s\<close>/\<open>S\<close>, and every other choice continues at the same room. In the
  room-only explorer a room without exits ends the exploration at once: the room and
  the closing notice are printed and no input is read.
\<close>

theorem leaf_room_still_prompts:
  assumes "ponteiro_ok ht"
  shows "(\<exists>st1. coletar nome ht (printf [SalaAtual nome] st) = Inr st1
           \<and> explorarSalas_corpo (criarSala nome) ht st
               = Inr (navegar (criarSala nome) (printf [NoFolha, ParaOnde, OpcaoSair, Escolha] st1)))
       \<and> fst (navegar (criarSala nome) s)
           = (case scanf_char (stdin s) of
                None \<Rightarrow> Retorna
              | Some (op, rest) \<Rightarrow>
                  if op = CHR ''s'' \<or> op = CHR ''S'' then Retorna else Continua (criarSala nome))
       \<and> explorarSalas_p0 (Sala_p0 nome Nula_p0 Nula_p0) con
           = Inr (printf_p0 [SalaAtual_p0 nome, SemMaisCaminhos_p0] con)"
proof -
  from coletar_ok [OF assms, of nome "printf [SalaAtual nome] st"]
  obtain st1 where c1: "coletar nome ht (printf [SalaAtual nome] st) = Inr st1" by blast
  then have a: "explorarSalas_corpo (criarSala nome) ht st
               = Inr (navegar (criarSala nome) (printf [NoFolha, ParaOnde, OpcaoSair, Escolha] st1))"
    by (simp add: criarSala_def bind_f_def del: navegar.simps)
  have b: "fst (navegar (criarSala nome) s)
           = (case scanf_char (stdin s) of
                None \<Rightarrow> Retorna
              | Some (op, rest) \<Rightarrow>
                  if op = CHR ''s'' \<or> op = CHR ''S'' then Retorna else Continua (criarSala nome))"
    by (simp add: criarSala_def Let_def split: option.splits)
  have c: "explorarSalas_p0 (Sala_p0 nome Nula_p0 Nula_p0) con
           = Inr (printf_p0 [SalaAtual_p0 nome, SemMaisCaminhos_p0] con)"
    by (simp add: printf_p0_def)
  from c1 a b c show ?thesis by blast
qed

theorem leaf_room_still_prompts_witness:
  "ponteiro_ok tabela_de_main
   \<and> explorarSalas_corpo (criarSala Porao) tabela_de_main
        \<lparr>raizPistas = Nulo, stdin = [CHR ''x'', CHR 0x0A], stdout = []\<rparr>
      = Inr (navegar (criarSala Porao)
          \<lparr>raizPistas = No ''mancha de tinta'' Nulo Nulo, stdin = [CHR ''x'', CHR 0x0A],
           stdout = [SalaAtual Porao, PistaEncontrada ''mancha de tinta'', PistaAponta ''Sr. Avelar'',
                     NoFolha, ParaOnde, OpcaoSair, Escolha]\<rparr>)
   \<and> fst (navegar (criarSala Porao) \<lparr>raizPistas = Nulo, stdin = [CHR ''x'', CHR 0x0A], stdout = []\<rparr>)
      = Continua (criarSala Porao)
   \<and> explorarSalas_p0 (Sala_p0 Porao Nula_p0 Nula_p0) \<lparr>stdin_p0 = [CHR ''x'', CHR 0x0A], stdout_p0 = []\<rparr>
      = Inr \<lparr>stdin_p0 = [CHR ''x'', CHR 0x0A], stdout_p0 = [SalaAtual_p0 Porao, SemMaisCaminhos_p0]\<rparr>"
proof -
  have h: "ponteiro_ok tabela_de_main"
    by (rule tabela_de_main_ok)
  have c: "coletar Porao tabela_de_main (printf [SalaAtual Porao] \<lparr>raizPistas = Nulo, stdin = [CHR ''x'', CHR 0x0A], stdout = []\<rparr>)
     = Inr \<lparr>raizPistas = No ''mancha de tinta'' Nulo Nulo, stdin = [CHR ''x'', CHR 0x0A],
           stdout = [SalaAtual Porao, PistaEncontrada ''mancha de tinta'', PistaAponta ''Sr. Avelar'']\<rparr>"
    by (simp add: avaliar)
  from leaf_room_still_prompts [OF h, of Porao "\<lparr>raizPistas = Nulo, stdin = [CHR ''x'', CHR 0x0A], stdout = []\<rparr>"
      "\<lparr>raizPistas = Nulo, stdin = [CHR ''x'', CHR 0x0A], stdout = []\<rparr>"
      "\<lparr>stdin_p0 = [CHR ''x'', CHR 0x0A], stdout_p0 = []\<rparr>"] h c
  show ?thesis
    by (simp add: printf_def printf_p0_def scanf_char_def isspace_def del: navegar.simps explorarSalas_corpo.simps explorarSalas_p0.simps)
qed

text \<open>The claim as stated fails in the full game: at the leaf room of the reference map
  the loop prompts, consumes the choice \<open>e\<close> and goes on at the same room.\<close>

theorem leaf_room_counterexample:
  "explorarSalas_corpo (criarSala Porao) tabela_de_main
     \<lparr>raizPistas = Nulo, stdin = [CHR ''e'', CHR 0x0A], stdout = []\<rparr>
   = Inr (Continua (criarSala Porao),
       \<lparr>raizPistas = No ''mancha de tinta'' Nulo Nulo, stdin = [],
        stdout = [SalaAtual Porao, PistaEncontrada ''mancha de tinta'', PistaAponta ''Sr. Avelar'',
                  NoFolha, ParaOnde, OpcaoSair, Escolha, SemCaminhoEsquerda]\<rparr>)"
  by (simp add: tabela_de_main_def popularHash_def associacoes_def criarHash_def hash_djb2_def
      criarSala_def bind_f_def coletar_def getPistaParaSala_def printf_def scanf_char_def
      limpar_linha_def isspace_def Let_def)


text \<open>
  C7. At a room \<open>R\<close>, a choice that is a direction without a room behind it or a byte that
  is no command only adds its message to the output and consumes its line: the loop goes
  on at \<open>R\<close> with the tree of clues untouched. So a pass through the loop body that reads
  such a choice ends at \<open>R\<close> with the set of clues that the clue step of this visit
  left, and the clue step of the next pass, at \<open>R\<close> again, leaves that set unchanged.
\<close>

theorem invalid_choice_changes_nothing:
  assumes "ponteiro_ok ht"
    and "scanf_char (stdin st) = Some (op, rest)"
    and "escolha_invalida (Sala nome e d) op"
  shows "navegar (Sala nome e d) st
           = (Continua (Sala nome e d), printf [relato op] (st\<lparr>stdin := limpar_linha rest\<rparr>))
       \<and> (\<exists>st2 st3.
             explorarSalas_corpo (Sala nome e d) ht st = Inr (Continua (Sala nome e d), st2)
           \<and> raizPistas st2 = inserirPista (raizPistas st) (getPistaParaSala (Some nome))
           \<and> coletar nome ht (printf [SalaAtual nome] st2) = Inr st3
           \<and> raizPistas st3 = raizPistas st2)"
proof -
  from coletar_ok [OF assms(1), of nome "printf [SalaAtual nome] st"]
  obtain st1 where c1: "coletar nome ht (printf [SalaAtual nome] st) = Inr st1"
    and i1: "stdin st1 = stdin st"
    and r1: "raizPistas st1 = inserirPista (raizPistas st) (getPistaParaSala (Some nome))"
    by (auto simp: printf_def)
  let ?m = "printf (menu (Sala nome e d)) st1"
  let ?st2 = "printf [relato op] (?m\<lparr>stdin := limpar_linha rest\<rparr>)"
  from i1 assms(2) have "scanf_char (stdin ?m) = Some (op, rest)" by (simp add: printf_def)
  from navegar_invalida [OF this assms(3)]
  have n: "navegar (Sala nome e d) ?m = (Continua (Sala nome e d), ?st2)" .
  from c1 n have corpo: "explorarSalas_corpo (Sala nome e d) ht st = Inr (Continua (Sala nome e d), ?st2)"
    by (simp add: bind_f_def del: navegar.simps)
  from r1 have r2: "raizPistas ?st2 = inserirPista (raizPistas st) (getPistaParaSala (Some nome))"
    by (simp add: printf_def)
  from coletar_ok [OF assms(1), of nome "printf [SalaAtual nome] ?st2"]
  obtain st3 where c3: "coletar nome ht (printf [SalaAtual nome] ?st2) = Inr st3"
    and r3: "raizPistas st3 = inserirPista (raizPistas (printf [SalaAtual nome] ?st2)) (getPistaParaSala (Some nome))"
    by blast
  from r3 r2 have "raizPistas st3 = raizPistas ?st2"
    by (simp add: printf_def inserirPista_twice)
  with corpo r2 c3 have "\<exists>st2 st3.
             explorarSalas_corpo (Sala nome e d) ht st = Inr (Continua (Sala nome e d), st2)
           \<and> raizPistas st2 = inserirPista (raizPistas st) (getPistaParaSala (Some nome))
           \<and> coletar nome ht (printf [SalaAtual nome] st2) = Inr st3
           \<and> raizPistas st3 = raizPistas st2"
    by blast
  with navegar_invalida [OF assms(2) assms(3)] show ?thesis by simp
qed

theorem invalid_choice_changes_nothing_witness:
  "ponteiro_ok tabela_de_main
   \<and> scanf_char [CHR ''e'', CHR 0x0A, CHR ''s'', CHR 0x0A] = Some (CHR ''e'', [CHR 0x0A, CHR ''s'', CHR 0x0A])
   \<and> escolha_invalida (Sala ''Despensa'' SalaNula (criarSala Escritorio)) CHR ''e''
   \<and> navegar (Sala ''Despensa'' SalaNula (criarSala Escritorio))
        \<lparr>raizPistas = No ''pegada molhada'' Nulo Nulo,
         stdin = [CHR ''e'', CHR 0x0A, CHR ''s'', CHR 0x0A], stdout = []\<rparr>
      = (Continua (Sala ''Despensa'' SalaNula (criarSala Escritorio)),
         \<lparr>raizPistas = No ''pegada molhada'' Nulo Nulo,
          stdin = [CHR ''s'', CHR 0x0A], stdout = [SemCaminhoEsquerda]\<rparr>)
   \<and> (\<exists>st2 st3.
        explorarSalas_corpo (Sala ''Despensa'' SalaNula (criarSala Escritorio)) tabela_de_main
          \<lparr>raizPistas = No ''pegada molhada'' Nulo Nulo,
           stdin = [CHR ''e'', CHR 0x0A, CHR ''s'', CHR 0x0A], stdout = []\<rparr>
        = Inr (Continua (Sala ''Despensa'' SalaNula (criarSala Escritorio)), st2)
      \<and> raizPistas st2 = No ''pegada molhada'' (No ''chave estranha'' Nulo Nulo) Nulo
      \<and> coletar ''Despensa'' tabela_de_main (printf [SalaAtual ''Despensa''] st2) = Inr st3
      \<and> raizPistas st3 = raizPistas st2)"
proof -
  have h1: "ponteiro_ok tabela_de_main"
    by (rule tabela_de_main_ok)
  have h2: "scanf_char (stdin \<lparr>raizPistas = No ''pegada molhada'' Nulo Nulo,
           stdin = [CHR ''e'', CHR 0x0A, CHR ''s'', CHR 0x0A], stdout = []\<rparr>)
      = Some (CHR ''e'', [CHR 0x0A, CHR ''s'', CHR 0x0A])"
    by (simp add: scanf_char_def isspace_def)
  have h3: "escolha_invalida (Sala ''Despensa'' SalaNula (criarSala Escritorio)) CHR ''e''"
    by simp
  have g: "inserirPista (No ''pegada molhada'' Nulo Nulo) (getPistaParaSala (Some ''Despensa''))
      = No ''pegada molhada'' (No ''chave estranha'' Nulo Nulo) Nulo"
    by (simp add: getPistaParaSala_def)
  have r: "printf [relato CHR ''e'']
        (\<lparr>raizPistas = No ''pegada molhada'' Nulo Nulo,
          stdin = [CHR ''e'', CHR 0x0A, CHR ''s'', CHR 0x0A], stdout = []\<rparr>
         \<lparr>stdin := limpar_linha [CHR 0x0A, CHR ''s'', CHR 0x0A]\<rparr>)
      = \<lparr>raizPistas = No ''pegada molhada'' Nulo Nulo,
          stdin = [CHR ''s'', CHR 0x0A], stdout = [SemCaminhoEsquerda]\<rparr>"
    by (simp add: printf_def relato_def limpar_linha_def)
  from invalid_choice_changes_nothing [OF h1 h2 h3] g r h1 h2 h3
  show ?thesis
    by (simp add: scanf_char_def isspace_def del: explorarSalas_corpo.simps navegar.simps)
qed

subsection \<open>Claims about the reference configuration\<close>

text \<open>
  C8, as the code has it. The room \<open>Porao\<close> has the clue "mancha de tinta", which the
  table links to "Sr. Avelar". The run that goes right twice from the hall, leaves, and
  accuses "Sr. Dourado" collects three clues and prints a count of 1 and the verdict
  "insufficient".
\<close>

theorem porao_scenario:
  "getPistaParaSala (Some Porao) = Some ''mancha de tinta''
   \<and> encontrarSuspeito tabela_de_main (Some ''mancha de tinta'') = Inr (Some ''Sr. Avelar'')
   \<and> main ([CHR ''d'', CHR 0x0A, CHR ''d'', CHR 0x0A, CHR ''s'', CHR 0x0A] @ ''Sr. Dourado'' @ [CHR 0x0A])
      = Inr [Titulo, BemVindo,
             SalaAtual ''Hall de Entrada'', PistaEncontrada ''pegada molhada'',
             PistaAponta ''Sr. Avelar'', ParaOnde, OpcaoEsquerda ''Sala de Estar'',
             OpcaoDireita ''Cozinha'', OpcaoSair, Escolha,
             SalaAtual ''Cozinha'', PistaEncontrada ''cheiro de queimado'',
             PistaAponta ''Sr. Dourado'', ParaOnde, OpcaoEsquerda ''Despensa'',
             OpcaoDireita Porao, OpcaoSair, Escolha,
             SalaAtual Porao, PistaEncontrada ''mancha de tinta'', PistaAponta ''Sr. Avelar'',
             NoFolha, ParaOnde, OpcaoSair, Escolha, Saindo,
             FaseFinal, PistasColetadas, LinhaPista ''cheiro de queimado'',
             LinhaPista ''mancha de tinta'', LinhaPista ''pegada molhada'',
             PedirAcusacao, VoceAcusou ''Sr. Dourado'', NumeroDePistas ''Sr. Dourado'' 1,
             AcusacaoInsuficiente 1, Obrigado]"
  by (simp add: main_def mansao_def faseFinal_def fgets_def c_string_def trim_inplace_def
      veredito_def incrementar_def INT_MAX_def avaliar)


text \<open>The claim as stated fails: the rules give the room \<open>Porao\<close> a clue.\<close>

theorem porao_has_a_clue_counterexample:
  "getPistaParaSala (Some Porao) \<noteq> None"
  by (simp add: getPistaParaSala_def)


text \<open>
  C9, as the code has it. The map of the full game has exactly 9 rooms, with 9 different
  names; the table that \<^verbatim>\<open>main\<close> fills holds exactly 9 entries; the map of the
  room-only explorer has 7 rooms.
\<close>

theorem rooms_and_entries:
  "length (nomes mansao) = 9
   \<and> distinct (nomes mansao)
   \<and> popularHash = Inr tabela_de_main
   \<and> numEntradas tabela_de_main = 9
   \<and> map_sum id nomes_p0 mansao_p0
      = Inr [''Hall de Entrada'', ''Sala de Estar'', ''Biblioteca'', ''Jardim de Inverno'',
             ''Cozinha'', ''Despensa'', Porao]"
proof -
  have a: "length (nomes mansao) = 9 \<and> distinct (nomes mansao)"
    by (simp add: mansao_def criarSala_def)
  have b: "popularHash = Inr tabela_de_main"
    by (simp add: avaliar)
  have c: "numEntradas tabela_de_main = 9"
    by (simp add: numEntradas_def length_concat map_update sum_list_update avaliar)
  have d: "map_sum id nomes_p0 mansao_p0
      = Inr [''Hall de Entrada'', ''Sala de Estar'', ''Biblioteca'', ''Jardim de Inverno'',
             ''Cozinha'', ''Despensa'', Porao]"
    by (simp add: mansao_p0_def criarSala_p0_def ligar_p0_def bind_f_def)
  from a b c d show ?thesis by simp
qed


text \<open>The claim as stated fails: the map does not have 8 rooms.\<close>

theorem room_count_counterexample:
  "\<not> (length (nomes mansao) = 8 \<and> numEntradas tabela_de_main = 9)"
  by (simp add: mansao_def criarSala_def)


subsection \<open>Claims about the table\<close>

text \<open>
  C1, where the code falls short of it. On the table that \<^verbatim>\<open>main\<close> fills, a get for the
  clue "anel riscado" returns the stored suspect "Srta. Clara". A put of that clue with the
  returned pointer as the suspect should leave the get as it was (the most recent put
  names the same suspect); the code frees the stored suspect before it copies the
  argument, which is that very block, so the put reads freed memory. The same put with
  the text in a buffer of the caller overwrites the entry and the get returns it.
\<close>

theorem put_of_returned_suspect_reads_freed_memory:
  "encontrarSuspeito tabela_de_main (Some ''anel riscado'') = Inr (Some ''Srta. Clara'')
   \<and> inserirNaHash tabela_de_main (Some ''anel riscado'') (Some (Guardado ''anel riscado'' 0))
       = Inl UsoAposLiberar
   \<and> bind_f (inserirNaHash tabela_de_main (Some ''anel riscado'') (Some (Fora ''Srta. Clara'')))
        (\<lambda>ht. encontrarSuspeito ht (Some ''anel riscado''))
       = Inr (Some ''Srta. Clara'')"
  by (simp add: avaliar)

end
